theory Spec2Isabelle
  imports Main
begin

section \<open>Values, exceptions and the Python built-ins the media processor uses\<close>

text \<open>
  A raw media record is a value parsed from a JSON manifest. Numbers are modelled as
  integers (the manifests carry integer epoch seconds); \<open>JNull\<close> is Python's \<open>None\<close>.
  An object is the list of its items, looked up from the front.
\<close>

datatype json =
    JNull
  | JBool bool
  | JInt int
  | JStr string
  | JList "json list"
  | JObj "(string \<times> json) list"

datatype error =
    AttributeError
  | TypeError
  | KeyError
  | ValueError
  | OverflowError
  | UnboundLocalError
  | FileNotFoundError
  | IsADirectoryError
  | FileExistsError
  | UnidentifiedImageError
  | OSError

text \<open>Truth value of a Python object, as \<open>or\<close> and \<open>if\<close> test it.\<close>

fun truthy :: "json \<Rightarrow> bool" where
  "truthy JNull = False"
| "truthy (JBool b) = b"
| "truthy (JInt i) = (i \<noteq> 0)"
| "truthy (JStr s) = (s \<noteq> [])"
| "truthy (JList xs) = (xs \<noteq> [])"
| "truthy (JObj d) = (d \<noteq> [])"

definition py_or :: "json \<Rightarrow> json \<Rightarrow> json" where
  "py_or a b = (if truthy a then a else b)"

text \<open>\<open>d.get(k, default)\<close> on a dict, and on an arbitrary object (only a dict has \<open>get\<close>).\<close>

definition dict_get :: "(string \<times> json) list \<Rightarrow> string \<Rightarrow> json \<Rightarrow> json" where
  "dict_get d k dflt = (case map_of d k of None \<Rightarrow> dflt | Some v \<Rightarrow> v)"

definition py_get :: "json \<Rightarrow> string \<Rightarrow> json \<Rightarrow> error + json" where
  "py_get x k dflt = (case x of JObj d \<Rightarrow> Inr (dict_get d k dflt) | _ \<Rightarrow> Inl AttributeError)"

text \<open>\<open>s.startswith(p)\<close> and the substring test \<open>sub in s\<close> on strings.\<close>

definition startswith :: "string \<Rightarrow> string \<Rightarrow> bool" where
  "startswith s p = (take (length p) s = p)"

fun contains :: "string \<Rightarrow> string \<Rightarrow> bool" where
  "contains sub [] = (sub = [])"
| "contains sub (c # cs) = (take (length sub) (c # cs) = sub \<or> contains sub cs)"

text \<open>
  \<open>str.lower()\<close> on the ASCII letters. The only use is the comparison of an extension
  with seven ASCII extensions, and no non-ASCII character lower-cases to one of their
  letters.
\<close>

definition lower_char :: "char \<Rightarrow> char" where
  "lower_char c =
     (let n = (of_char c :: nat) in if 65 \<le> n \<and> n \<le> 90 then char_of (n + 32) else c)"

definition lower :: "string \<Rightarrow> string" where
  "lower s = map lower_char s"

text \<open>The decimal numeral of a natural number, as an f-string renders a counter.\<close>

definition digit :: "nat \<Rightarrow> char" where
  "digit n = char_of (48 + n)"

fun str_nat :: "nat \<Rightarrow> string" where
  "str_nat n = (if n < 10 then [digit n] else str_nat (n div 10) @ [digit (n mod 10)])"

declare str_nat.simps [simp del]

subsection \<open>\<open>os.path\<close> on POSIX\<close>

definition os_path_join :: "string \<Rightarrow> string \<Rightarrow> string" where
  "os_path_join a b =
     (if startswith b ''/'' then b
      else if a = [] \<or> last a = CHR ''/'' then a @ b
      else a @ ''/'' @ b)"

text \<open>\<open>p[i:]\<close> and \<open>p[:i]\<close> for \<open>i = p.rfind('/') + 1\<close>.\<close>

definition after_sep :: "string \<Rightarrow> string" where
  "after_sep p = rev (takeWhile (\<lambda>c. c \<noteq> CHR ''/'') (rev p))"

definition upto_sep :: "string \<Rightarrow> string" where
  "upto_sep p = rev (dropWhile (\<lambda>c. c \<noteq> CHR ''/'') (rev p))"

definition rstrip_sep :: "string \<Rightarrow> string" where
  "rstrip_sep p = rev (dropWhile (\<lambda>c. c = CHR ''/'') (rev p))"

definition os_path_split :: "string \<Rightarrow> string \<times> string" where
  "os_path_split p =
     (let head = upto_sep p; tail = after_sep p
      in if head \<noteq> [] \<and> head \<noteq> replicate (length head) (CHR ''/'')
         then (rstrip_sep head, tail) else (head, tail))"

definition os_path_dirname :: "string \<Rightarrow> string" where
  "os_path_dirname p = fst (os_path_split p)"

text \<open>
  \<open>os.path.splitext\<close>: the extension starts at the last dot of the last path component,
  unless only dots precede it there.
\<close>

definition os_path_splitext :: "string \<Rightarrow> string \<times> string" where
  "os_path_splitext p =
     (let tail = after_sep p;
          suf = rev (takeWhile (\<lambda>c. c \<noteq> CHR ''.'') (rev tail))
      in if CHR ''.'' \<in> set tail
            \<and> (\<exists>c \<in> set (take (length tail - length suf - 1) tail). c \<noteq> CHR ''.'')
         then (take (length p - length suf - 1) p, drop (length p - length suf - 1) p)
         else (p, []))"

subsection \<open>\<open>datetime.fromtimestamp\<close> and \<open>strftime\<close>\<close>

text \<open>
  A broken-down time. The civil date of a day number is computed in the proleptic
  Gregorian calendar, as \<open>datetime\<close> does; the time zone is a parameter, the UTC offset
  in seconds that the zone's table gives for an instant.
\<close>

record tm =
  tm_year :: int
  tm_mon :: int
  tm_mday :: int
  tm_hour :: int
  tm_min :: int
  tm_sec :: int

definition civil :: "int \<Rightarrow> tm" where
  "civil t =
     (let days = t div 86400; sod = t mod 86400;
          z = days + 719468;
          era = z div 146097;
          doe = z - era * 146097;
          yoe = (doe - doe div 1460 + doe div 36524 - doe div 146096) div 365;
          doy = doe - (365 * yoe + yoe div 4 - yoe div 100);
          mp = (5 * doy + 2) div 153;
          d = doy - (153 * mp + 2) div 5 + 1;
          m = (if mp < 10 then mp + 3 else mp - 9);
          y = yoe + era * 400 + (if m \<le> 2 then 1 else 0)
      in \<lparr>tm_year = y, tm_mon = m, tm_mday = d,
          tm_hour = sod div 3600, tm_min = (sod mod 3600) div 60, tm_sec = sod mod 60\<rparr>)"

text \<open>A timestamp argument must be an integer; \<open>bool\<close> is a subclass of \<open>int\<close>.\<close>

fun as_int :: "json \<Rightarrow> int option" where
  "as_int (JInt i) = Some i"
| "as_int (JBool b) = Some (if b then 1 else 0)"
| "as_int _ = None"

text \<open>
  \<open>datetime.fromtimestamp(ts, tz=zone)\<close>: the UTC date must have a year in 1..9999, and so
  must the date shifted into the zone.
\<close>

definition fromtimestamp :: "(int \<Rightarrow> int) \<Rightarrow> json \<Rightarrow> error + tm" where
  "fromtimestamp utcoffset ts =
     (case as_int ts of
        None \<Rightarrow> Inl TypeError
      | Some t \<Rightarrow>
          if tm_year (civil t) < 1 \<or> 9999 < tm_year (civil t) then Inl ValueError
          else let local = civil (t + utcoffset t)
               in if tm_year local < 1 \<or> 9999 < tm_year local then Inl OverflowError
                  else Inr local)"

definition pad :: "nat \<Rightarrow> int \<Rightarrow> string" where
  "pad w n = (let s = str_nat (nat n) in replicate (w - length s) (CHR ''0'') @ s)"

text \<open>\<open>strftime("%Y-%m-%d_%H.%M.%S")\<close> and \<open>strftime("%Y:%m:%d %H:%M:%S")\<close>.\<close>

definition strftime_file :: "tm \<Rightarrow> string" where
  "strftime_file dt =
     pad 4 (tm_year dt) @ ''-'' @ pad 2 (tm_mon dt) @ ''-'' @ pad 2 (tm_mday dt) @ ''_''
       @ pad 2 (tm_hour dt) @ ''.'' @ pad 2 (tm_min dt) @ ''.'' @ pad 2 (tm_sec dt)"

definition strftime_exif :: "tm \<Rightarrow> string" where
  "strftime_exif dt =
     pad 4 (tm_year dt) @ '':'' @ pad 2 (tm_mon dt) @ '':'' @ pad 2 (tm_mday dt) @ '' ''
       @ pad 2 (tm_hour dt) @ '':'' @ pad 2 (tm_min dt) @ '':'' @ pad 2 (tm_sec dt)"

section \<open>The file system, the image library and the clock\<close>

text \<open>
  The operating system and the imaging libraries are outside the repository. They are
  modelled by a finite file system (a path names a node by its exact string), by the
  picture and EXIF block a file decodes to, and by an environment that fixes what the
  code cannot see: the time-zone table, the clock, the creation time the file system
  reports, and which library or system calls fail for a reason of their own. A failing
  call has no effect. Logging is not modelled.
\<close>

record exif =
  date_time_original :: "string option"
  image_description :: "json option"
  other_tags :: string

definition empty_exif :: exif where
  "empty_exif = \<lparr>date_time_original = None, image_description = None, other_tags = []\<rparr>"

record image =
  img_format :: "string option"
  img_exif :: "exif option"
  pixels :: string

datatype content = Blob string | Picture image

datatype node = Dir | File content "(int \<times> int) option"

type_synonym filesystem = "(string \<times> node) list"

datatype io_call =
    ImageOpen string
  | ExifDump exif
  | MakeDirs string
  | ImageSave string exif
  | CopyFile string string
  | Utime string int

record env =
  la_timezone :: "int \<Rightarrow> int"
  time_time :: "nat \<Rightarrow> int"
  getctime :: "string \<Rightarrow> int"
  io_fails :: "filesystem \<Rightarrow> io_call \<Rightarrow> bool"

definition os_path_exists :: "filesystem \<Rightarrow> string \<Rightarrow> bool" where
  "os_path_exists fs p = (map_of fs p \<noteq> None)"

definition os_path_isfile :: "filesystem \<Rightarrow> string \<Rightarrow> bool" where
  "os_path_isfile fs p = (case map_of fs p of Some (File c t) \<Rightarrow> True | _ \<Rightarrow> False)"

definition os_path_isdir :: "filesystem \<Rightarrow> string \<Rightarrow> bool" where
  "os_path_isdir fs p = (map_of fs p = Some Dir)"

section \<open>The state of a run\<close>

text \<open>
  The canonical metadata record that \<open>process_media_item\<close> stores in \<open>self.metadata\<close>;
  \<open>timestamp\<close> is the resolved timestamp.
\<close>

record metadata =
  uri_path :: string
  description :: json
  creation_timestamp :: json
  taken_timestamp :: json
  save_directory :: string
  timestamp :: json

text \<open>
  The \<open>MediaProcessor\<close> object together with the world it acts on: the file system, the
  list of file operations performed so far, and the number of clock readings taken.
  \<open>metadata\<close> is \<open>None\<close> for the empty dict that \<open>__init__\<close> stores.
\<close>

record mp_state =
  base_path :: string
  save_path :: string
  metadata :: "metadata option"
  is_dry_run :: bool
  processed_items :: "(string \<times> string) set"
  fs :: filesystem
  trace :: "io_call list"
  ticks :: nat

datatype outcome = Returned | Raised error

definition MediaProcessor :: "string \<Rightarrow> string \<Rightarrow> bool \<Rightarrow> filesystem \<Rightarrow> mp_state" where
  "MediaProcessor base save dry files =
     \<lparr>base_path = base, save_path = save, metadata = None, is_dry_run = dry,
      processed_items = {}, fs = files, trace = [], ticks = 0\<rparr>"

definition get_total_processed :: "mp_state \<Rightarrow> nat" where
  "get_total_processed s = card (processed_items s)"

text \<open>Sequencing: the next statement runs only if the previous one returned.\<close>

definition and_then ::
  "outcome \<times> mp_state \<Rightarrow> (mp_state \<Rightarrow> outcome \<times> mp_state) \<Rightarrow> outcome \<times> mp_state" where
  "and_then r f = (case r of (Returned, s) \<Rightarrow> f s | (Raised e, s) \<Rightarrow> (Raised e, s))"

subsection \<open>System calls\<close>

definition os_makedirs :: "env \<Rightarrow> string \<Rightarrow> mp_state \<Rightarrow> outcome \<times> mp_state" where
  "os_makedirs env p s =
     (if p = [] then (Raised FileNotFoundError, s)
      else case map_of (fs s) p of
        Some (File c t) \<Rightarrow> (Raised FileExistsError, s)
      | Some Dir \<Rightarrow> (if io_fails env (fs s) (MakeDirs p) then (Raised OSError, s) else (Returned, s))
      | None \<Rightarrow>
          if io_fails env (fs s) (MakeDirs p) then (Raised OSError, s)
          else (Returned, s\<lparr>fs := (p, Dir) # fs s, trace := trace s @ [MakeDirs p]\<rparr>))"

definition shutil_copy :: "env \<Rightarrow> string \<Rightarrow> string \<Rightarrow> mp_state \<Rightarrow> outcome \<times> mp_state" where
  "shutil_copy env src dst s =
     (case map_of (fs s) src of
        None \<Rightarrow> (Raised FileNotFoundError, s)
      | Some Dir \<Rightarrow> (Raised IsADirectoryError, s)
      | Some (File c t) \<Rightarrow>
          let target = (if os_path_isdir (fs s) dst
                        then os_path_join dst (snd (os_path_split src)) else dst)
          in if target = src \<or> io_fails env (fs s) (CopyFile src target) then (Raised OSError, s)
             else (Returned, s\<lparr>fs := (target, File c None) # fs s,
                                trace := trace s @ [CopyFile src target]\<rparr>))"

definition os_utime :: "env \<Rightarrow> string \<Rightarrow> json \<Rightarrow> mp_state \<Rightarrow> outcome \<times> mp_state" where
  "os_utime env p ts s =
     (case as_int ts of
        None \<Rightarrow> (Raised TypeError, s)
      | Some t \<Rightarrow>
          (case map_of (fs s) p of
             None \<Rightarrow> (Raised FileNotFoundError, s)
           | Some n \<Rightarrow>
               if io_fails env (fs s) (Utime p t) then (Raised OSError, s)
               else (Returned,
                     s\<lparr>fs := (p, case n of Dir \<Rightarrow> Dir | File c old \<Rightarrow> File c (Some (t, t))) # fs s,
                       trace := trace s @ [Utime p t]\<rparr>)))"

section \<open>ExifImageHandler\<close>

record handler =
  photo_uri :: string
  img :: image
  exif_dict :: exif
  creation_timestamp_attr :: "json option"

text \<open>\<open>ExifImageHandler(photo_uri)\<close>: open the picture and load its EXIF block.\<close>

definition ExifImageHandler :: "env \<Rightarrow> filesystem \<Rightarrow> string \<Rightarrow> error + handler" where
  "ExifImageHandler env files uri =
     (case map_of files uri of
        None \<Rightarrow> Inl FileNotFoundError
      | Some Dir \<Rightarrow> Inl IsADirectoryError
      | Some (File (Blob b) t) \<Rightarrow> Inl UnidentifiedImageError
      | Some (File (Picture im) t) \<Rightarrow>
          if io_fails env files (ImageOpen uri) then Inl OSError
          else Inr \<lparr>photo_uri = uri, img = im,
                    exif_dict = (case img_exif im of None \<Rightarrow> empty_exif | Some e \<Rightarrow> e),
                    creation_timestamp_attr = None\<rparr>)"

definition set_creation_timestamp :: "handler \<Rightarrow> json \<Rightarrow> error + handler" where
  "set_creation_timestamp h ts =
     (case fromtimestamp (\<lambda>t. 0) ts of
        Inl e \<Rightarrow> Inl e
      | Inr dt \<Rightarrow>
          Inr (h\<lparr>exif_dict := (exif_dict h)\<lparr>date_time_original := Some (strftime_exif dt)\<rparr>,
                 creation_timestamp_attr := Some ts\<rparr>))"

definition set_description :: "handler \<Rightarrow> json \<Rightarrow> handler" where
  "set_description h d =
     (if truthy d then h\<lparr>exif_dict := (exif_dict h)\<lparr>image_description := Some d\<rparr>\<rparr> else h)"

definition update_file_timestamps :: "env \<Rightarrow> handler \<Rightarrow> string \<Rightarrow> mp_state \<Rightarrow> outcome \<times> mp_state" where
  "update_file_timestamps env h image_path s =
     (let now = JInt (time_time env (ticks s)); s1 = s\<lparr>ticks := Suc (ticks s)\<rparr>;
          ts = (case creation_timestamp_attr h of None \<Rightarrow> now | Some v \<Rightarrow> v)
      in os_utime env image_path ts s1)"

definition save :: "env \<Rightarrow> handler \<Rightarrow> string \<Rightarrow> mp_state \<Rightarrow> outcome \<times> mp_state" where
  "save env h path s =
     (if io_fails env (fs s) (ExifDump (exif_dict h)) then (Raised ValueError, s)
      else and_then (os_makedirs env (os_path_dirname path) s) (\<lambda>s1.
        if io_fails env (fs s1) (ImageSave path (exif_dict h)) then (Raised OSError, s1)
        else update_file_timestamps env h path
               (s1\<lparr>fs := (path, File (Picture ((img h)\<lparr>img_exif := Some (exif_dict h)\<rparr>)) None) # fs s1,
                   trace := trace s1 @ [ImageSave path (exif_dict h)]\<rparr>)))"

section \<open>MediaProcessor\<close>

text \<open>
  \<open>_extract_taken_timestamp\<close>. Iterating the value found under \<open>exif_data\<close> yields the
  elements of a list, the keys of a dict and the characters of a string; anything else is
  not iterable. The test \<open>"taken_timestamp" in exif_data\<close> is a key test on a dict, a
  substring test on a string and a membership test on a list, and the subscript that
  follows needs a dict.
\<close>

definition py_iter :: "json \<Rightarrow> error + json list" where
  "py_iter x =
     (case x of
        JList xs \<Rightarrow> Inr xs
      | JObj d \<Rightarrow> Inr (map (\<lambda>kv. JStr (fst kv)) d)
      | JStr s \<Rightarrow> Inr (map (\<lambda>c. JStr [c]) s)
      | _ \<Rightarrow> Inl TypeError)"

fun scan_exif_data :: "json list \<Rightarrow> error + json" where
  "scan_exif_data [] = Inr JNull"
| "scan_exif_data (e # es) =
     (case e of
        JObj d \<Rightarrow>
          (case map_of d ''taken_timestamp'' of Some v \<Rightarrow> Inr v | None \<Rightarrow> scan_exif_data es)
      | JStr s \<Rightarrow> if contains ''taken_timestamp'' s then Inl TypeError else scan_exif_data es
      | JList xs \<Rightarrow>
          if JStr ''taken_timestamp'' \<in> set xs then Inl TypeError else scan_exif_data es
      | _ \<Rightarrow> Inl TypeError)"

definition extract_taken_timestamp :: "json \<Rightarrow> error + json" where
  "extract_taken_timestamp media_item =
     (case py_get media_item ''media_metadata'' (JObj []) of
        Inl e \<Rightarrow> Inl e
      | Inr mm \<Rightarrow>
          (case py_get mm ''photo_metadata'' (JObj []) of
             Inl e \<Rightarrow> Inl e
           | Inr pm \<Rightarrow>
               (case py_get pm ''exif_data'' (JList []) of
                  Inl e \<Rightarrow> Inl e
                | Inr exif_data_list \<Rightarrow>
                    (case py_iter exif_data_list of
                       Inl e \<Rightarrow> Inl e
                     | Inr es \<Rightarrow> scan_exif_data es))))"

text \<open>\<open>_generate_filename\<close>, reading \<open>self.metadata\<close>.\<close>

definition generate_filename :: "env \<Rightarrow> mp_state \<Rightarrow> error + string" where
  "generate_filename env s =
     (case metadata s of
        None \<Rightarrow> Inl KeyError
      | Some md \<Rightarrow>
          let uri_file_name = snd (os_path_split (uri_path md));
              file_ext = snd (os_path_splitext uri_file_name)
          in case fromtimestamp (la_timezone env) (timestamp md) of
               Inl e \<Rightarrow> Inl e
             | Inr dt \<Rightarrow> Inr (strftime_file dt @ file_ext))"

text \<open>
  \<open>_generate_save_path\<close>. The candidate after \<open>counter\<close> collisions, and the loop that
  probes the file system until a candidate is free.
\<close>

definition candidate :: "string \<Rightarrow> string \<Rightarrow> string \<Rightarrow> nat \<Rightarrow> string" where
  "candidate directory file_name file_ext counter =
     os_path_join directory (file_name @ ''_'' @ str_nat counter @ file_ext)"

function save_path_loop ::
  "filesystem \<Rightarrow> string \<Rightarrow> string \<Rightarrow> string \<Rightarrow> string \<Rightarrow> nat \<Rightarrow> string \<times> nat" where
  "save_path_loop files directory file_name file_ext file_path counter =
     (if os_path_exists files file_path
      then save_path_loop files directory file_name file_ext
             (candidate directory file_name file_ext counter) (counter + 1)
      else (file_path, counter))"
  by pat_completeness auto

definition generate_save_path :: "filesystem \<Rightarrow> string \<Rightarrow> string \<Rightarrow> string option" where
  "generate_save_path files directory base_file_name =
     (let file_name = fst (os_path_splitext base_file_name);
          file_ext = snd (os_path_splitext base_file_name);
          file_path = os_path_join directory base_file_name
      in Some (fst (save_path_loop files directory file_name file_ext file_path 1)))"

definition add_processed :: "metadata \<Rightarrow> mp_state \<Rightarrow> mp_state" where
  "add_processed md s =
     s\<lparr>processed_items := insert (uri_path md, save_directory md) (processed_items s)\<rparr>"

text \<open>
  \<open>_copy_non_image\<close>. Every exception of the \<open>try\<close> block is caught and logged.
\<close>

definition copy_non_image :: "env \<Rightarrow> mp_state \<Rightarrow> outcome \<times> mp_state" where
  "copy_non_image env s =
     (case metadata s of
        None \<Rightarrow> (Raised KeyError, s)
      | Some md \<Rightarrow>
          if is_dry_run s then (Returned, s)
          else
            (case generate_filename env s of
               Inl e \<Rightarrow> (Returned, s)
             | Inr base_file_name \<Rightarrow>
                 (case generate_save_path (fs s) (save_directory md) base_file_name of
                    None \<Rightarrow> (Returned, s)
                  | Some path \<Rightarrow>
                      (case and_then (os_makedirs env (os_path_dirname path) s) (\<lambda>s1.
                            and_then (shutil_copy env (uri_path md) path s1) (\<lambda>s2.
                            and_then (os_utime env path (timestamp md) s2) (\<lambda>s3.
                            (Returned, add_processed md s3)))) of
                         (Raised e, s') \<Rightarrow> (Returned, s')
                       | (Returned, s') \<Rightarrow> (Returned, s')))))"

text \<open>
  \<open>_copy_image\<close>. The statements of the \<open>try\<close> block after \<open>save_path\<close> is bound:
\<close>

definition image_steps :: "env \<Rightarrow> metadata \<Rightarrow> string \<Rightarrow> mp_state \<Rightarrow> outcome \<times> mp_state" where
  "image_steps env md path s =
     (case ExifImageHandler env (fs s) (uri_path md) of
        Inl e \<Rightarrow> (Raised e, s)
      | Inr exif_handler \<Rightarrow>
          (case set_creation_timestamp exif_handler (timestamp md) of
             Inl e \<Rightarrow> (Raised e, s)
           | Inr h1 \<Rightarrow>
               and_then (save env (set_description h1 (description md)) path s) (\<lambda>s1.
                 (Returned, add_processed md s1))))"

text \<open>
  The handler of \<open>_copy_image\<close> formats \<open>save_path\<close> into its warning before it calls
  \<open>_copy_non_image\<close>. When \<open>_generate_filename\<close> has raised, that name is not bound and
  the handler itself raises.
\<close>

definition copy_image :: "env \<Rightarrow> mp_state \<Rightarrow> outcome \<times> mp_state" where
  "copy_image env s =
     (case metadata s of
        None \<Rightarrow> (Raised KeyError, s)
      | Some md \<Rightarrow>
          if is_dry_run s then (Returned, s)
          else
            (case generate_filename env s of
               Inl e \<Rightarrow> (Raised UnboundLocalError, s)
             | Inr base_file_name \<Rightarrow>
                 (case generate_save_path (fs s) (save_directory md) base_file_name of
                    None \<Rightarrow> (Returned, s)
                  | Some path \<Rightarrow>
                      (case image_steps env md path s of
                         (Raised e, s') \<Rightarrow> copy_non_image env s'
                       | (Returned, s') \<Rightarrow> (Returned, s')))))"

definition image_extensions :: "string list" where
  "image_extensions = [''.jpg'', ''.jpeg'', ''.png'', ''.gif'', ''.bmp'', ''.tiff'', ''.webp'']"

text \<open>
  The canonical record of \<open>process_media_item\<close>: the dict literal and the assignment of
  the resolved timestamp. \<open>now\<close> is \<open>int(time.time())\<close>.
\<close>

definition make_metadata ::
  "string \<Rightarrow> int \<Rightarrow> (string \<times> json) list \<Rightarrow> string \<Rightarrow> string \<Rightarrow> error + metadata" where
  "make_metadata base now d uri directory =
     (case extract_taken_timestamp (JObj d) of
        Inl e \<Rightarrow> Inl e
      | Inr taken \<Rightarrow>
          let creation = dict_get d ''creation_timestamp'' (JInt now)
          in Inr \<lparr>uri_path = os_path_join base uri,
                  description = dict_get d ''description'' (JStr []),
                  creation_timestamp = creation,
                  taken_timestamp = taken,
                  save_directory = directory,
                  timestamp = py_or taken creation\<rparr>)"

definition process_media_item :: "env \<Rightarrow> json \<Rightarrow> string \<Rightarrow> mp_state \<Rightarrow> outcome \<times> mp_state" where
  "process_media_item env data directory s =
     (case data of
        JObj d \<Rightarrow>
          (case dict_get d ''uri'' (JStr []) of
             JStr uri \<Rightarrow>
               if \<not> startswith uri ''your_facebook_activity'' then (Returned, s)
               else
                 (let now = time_time env (ticks s); s1 = s\<lparr>ticks := Suc (ticks s)\<rparr>
                  in case make_metadata (base_path s) now d uri directory of
                       Inl e \<Rightarrow> (Raised e, s1)
                     | Inr md \<Rightarrow>
                         let s2 = s1\<lparr>metadata := Some md\<rparr>
                         in if (uri_path md, save_directory md) \<in> processed_items s2
                            then (Returned, s2)
                            else if lower (snd (os_path_splitext (uri_path md)))
                                      \<in> set image_extensions
                            then copy_image env s2
                            else copy_non_image env s2)
           | _ \<Rightarrow> (Raised AttributeError, s))
      | _ \<Rightarrow> (Raised AttributeError, s))"

section \<open>The callers in MetaBridge\<close>

text \<open>
  The loop \<open>for entry in ...: media_processor.process_media_item(entry, save_directory)\<close>
  of \<open>extract_albums\<close>, \<open>extract_misc\<close> and \<open>extract_videos\<close>: an exception ends it.
\<close>

fun process_entries :: "env \<Rightarrow> json list \<Rightarrow> string \<Rightarrow> mp_state \<Rightarrow> outcome \<times> mp_state" where
  "process_entries env [] directory s = (Returned, s)"
| "process_entries env (entry # rest) directory s =
     and_then (process_media_item env entry directory s) (process_entries env rest directory)"

text \<open>
  \<open>process_stickers\<close>. \<open>args.path\<close> and \<open>args.save_path\<close> are the paths the processor was
  built with; \<open>names\<close> is what \<open>os.listdir\<close> returns. Each item runs in its own
  \<open>try\<close>, so an exception is logged and the loop goes on.
\<close>

definition sticker_data :: "env \<Rightarrow> string \<Rightarrow> string \<Rightarrow> string \<Rightarrow> json" where
  "sticker_data env uri_base file_name file_path =
     JObj [(''uri'', JStr (os_path_join uri_base file_name)),
           (''description'', JStr []),
           (''creation_timestamp'', JInt (getctime env file_path))]"

fun stickers_loop ::
  "env \<Rightarrow> string \<Rightarrow> string \<Rightarrow> string \<Rightarrow> string list \<Rightarrow> mp_state \<Rightarrow> mp_state" where
  "stickers_loop env uri_base target_path directory [] s = s"
| "stickers_loop env uri_base target_path directory (file_name # rest) s =
     (let file_path = os_path_join target_path file_name
      in stickers_loop env uri_base target_path directory rest
           (if os_path_isfile (fs s) file_path
            then snd (process_media_item env
                        (sticker_data env uri_base file_name file_path) directory s)
            else s))"

definition process_stickers :: "env \<Rightarrow> string list \<Rightarrow> mp_state \<Rightarrow> mp_state" where
  "process_stickers env names s =
     (let uri_base = ''your_facebook_activity/posts/media/stickers_used/'';
          target_path = os_path_join (base_path s) uri_base;
          directory = os_path_join (save_path s) ''stickers''
      in if \<not> os_path_exists (fs s) target_path \<or> \<not> os_path_isdir (fs s) target_path then s
         else stickers_loop env uri_base target_path directory names s)"

text \<open>What \<open>os.path.join\<close> puts in front of a non-empty second argument with first character \<open>c\<close>.\<close>

definition join_prefix :: "string \<Rightarrow> char \<Rightarrow> string" where
  "join_prefix a c = (if c = CHR ''/'' then [] else if a = [] \<or> last a = CHR ''/'' then a else a @ ''/'')"

text \<open>
  Two states are the same processor object when only the world around it (files, trace,
  clock) may differ.
\<close>

definition same_object :: "mp_state \<Rightarrow> mp_state \<Rightarrow> bool" where
  "same_object s s' =
     (base_path s' = base_path s \<and> save_path s' = save_path s \<and> metadata s' = metadata s
      \<and> is_dry_run s' = is_dry_run s \<and> processed_items s' = processed_items s)"

text \<open>
  What a writer branch may change of the processor object: nothing, or the Processed-Set
  gains the pair of the record \<open>md\<close>.
\<close>

definition after_write :: "metadata \<Rightarrow> mp_state \<Rightarrow> mp_state \<Rightarrow> bool" where
  "after_write md s s' =
     (base_path s' = base_path s \<and> save_path s' = save_path s \<and> metadata s' = metadata s
      \<and> is_dry_run s' = is_dry_run s
      \<and> (processed_items s' = processed_items s
           \<or> processed_items s' = insert (uri_path md, save_directory md) (processed_items s)))"

section \<open>A sample export\<close>

text \<open>
  A small export tree and an environment in which no call fails for a reason of its own,
  on a day when Los Angeles is eight hours behind UTC. The examples below run the
  processor on them.
\<close>

definition sample_env :: env where
  "sample_env = \<lparr>la_timezone = (\<lambda>t. - 28800), time_time = (\<lambda>n. 1700000100),
                  getctime = (\<lambda>p. 1700000000), io_fails = (\<lambda>files c. False)\<rparr>"

definition sample_picture :: image where
  "sample_picture = \<lparr>img_format = Some ''PNG'', img_exif = None, pixels = ''px''\<rparr>"

definition sample_files :: filesystem where
  "sample_files =
     [(''/export/your_facebook_activity/posts/media/a.JPG'', File (Picture sample_picture) None),
      (''/export/your_facebook_activity/posts/media/b.mp4'', File (Blob ''video-b'') None),
      (''/export/your_facebook_activity/posts/media/c.mp4'', File (Blob ''video-c'') None),
      (''/export/your_facebook_activity/posts/media/d.mp4'', File (Blob ''video-d'') None),
      (''/export/your_facebook_activity/posts/media/stickers_used/'', Dir),
      (''/export/your_facebook_activity/posts/media/stickers_used/s.png'',
         File (Picture sample_picture) None)]"

definition sample_state :: mp_state where
  "sample_state = MediaProcessor ''/export'' ''/out'' False sample_files"

definition sample_dry_state :: mp_state where
  "sample_dry_state = MediaProcessor ''/export'' ''/out'' True sample_files"

definition media_record :: "string \<Rightarrow> json \<Rightarrow> json" where
  "media_record name ts =
     JObj [(''uri'', JStr (''your_facebook_activity/posts/media/'' @ name)),
           (''creation_timestamp'', ts)]"

section \<open>The save-path loop terminates\<close>

text \<open>
  Decimal numerals are injective, so the candidates of different counters are different
  paths; a finite file system holds only finitely many of them, and each probe that finds
  a candidate taken leaves one fewer ahead.
\<close>

lemma digit_inj: "a < 10 \<Longrightarrow> b < 10 \<Longrightarrow> digit a = digit b \<Longrightarrow> a = b"
proof -
  assume a: "a < 10" and b: "b < 10" and e: "digit a = digit b"
  have "(of_char (digit a) :: nat) = of_char (digit b)" using e by simp
  then have "(48 + a) mod 256 = (48 + b) mod 256" by (simp add: digit_def)
  moreover have "(48 + a) mod 256 = 48 + a" "(48 + b) mod 256 = 48 + b" using a b by auto
  ultimately show "a = b" by linarith
qed

lemma str_nat_nonempty: "str_nat n \<noteq> []"
  by (subst str_nat.simps) simp

lemma str_nat_inj: "str_nat n = str_nat m \<Longrightarrow> n = m"
proof (induction n arbitrary: m rule: str_nat.induct)
  case (1 n)
  show ?case
  proof (cases "n < 10")
    case True
    then have sn: "str_nat n = [digit n]" by (subst str_nat.simps) simp
    show ?thesis
    proof (cases "m < 10")
      case mt: True
      then have "str_nat m = [digit m]" by (subst str_nat.simps) simp
      with sn "1.prems" True mt show ?thesis by (auto dest: digit_inj)
    next
      case mf: False
      then have "str_nat m = str_nat (m div 10) @ [digit (m mod 10)]" by (subst str_nat.simps) simp
      with sn "1.prems" str_nat_nonempty[of "m div 10"] show ?thesis by auto
    qed
  next
    case False
    then have sn: "str_nat n = str_nat (n div 10) @ [digit (n mod 10)]" by (subst str_nat.simps) simp
    show ?thesis
    proof (cases "m < 10")
      case mt: True
      then have "str_nat m = [digit m]" by (subst str_nat.simps) simp
      with sn "1.prems" str_nat_nonempty[of "n div 10"] show ?thesis by auto
    next
      case mf: False
      then have sm: "str_nat m = str_nat (m div 10) @ [digit (m mod 10)]" by (subst str_nat.simps) simp
      from sn sm "1.prems" have e1: "str_nat (n div 10) = str_nat (m div 10)" and e2: "digit (n mod 10) = digit (m mod 10)" by auto
      from "1.IH"[OF False e1] have "n div 10 = m div 10" .
      moreover from e2 have "n mod 10 = m mod 10" using digit_inj[of "n mod 10" "m mod 10"] by simp
      ultimately have "10 * (n div 10) + n mod 10 = 10 * (m div 10) + m mod 10" by simp
      then show ?thesis by simp
    qed
  qed
qed

lemma startswith_sep: "b \<noteq> [] \<Longrightarrow> startswith b ''/'' = (hd b = CHR ''/'')"
  by (cases b) (simp_all add: startswith_def)

lemma os_path_join_prefix: "b \<noteq> [] \<Longrightarrow> os_path_join a b = join_prefix a (hd b) @ b"
  by (simp add: os_path_join_def startswith_sep join_prefix_def)

lemma candidate_inj: "candidate d n e j = candidate d n e k \<Longrightarrow> j = k"
proof -
  assume eq: "candidate d n e j = candidate d n e k"
  have hd_eq: "hd (n @ ''_'' @ str_nat i @ e) = hd (n @ ''_'')" for i
    by (cases n) simp_all
  have ne: "n @ ''_'' @ str_nat i @ e \<noteq> []" for i by simp
  have "candidate d n e i = join_prefix d (hd (n @ ''_'')) @ n @ ''_'' @ str_nat i @ e" for i
    unfolding candidate_def using os_path_join_prefix[OF ne, of d i] hd_eq[of i] by simp
  with eq have "str_nat j @ e = str_nat k @ e" by simp
  then have "str_nat j = str_nat k" by simp
  then show "j = k" by (rule str_nat_inj)
qed

lemma finite_taken: "finite {k. os_path_exists files (candidate d n e k)}"
proof -
  have "{k. os_path_exists files (candidate d n e k)} = candidate d n e -` dom (map_of files)"
    by (auto simp: os_path_exists_def)
  moreover have "inj (candidate d n e)" by (rule injI) (rule candidate_inj)
  moreover have "finite (dom (map_of files))" by (rule finite_dom_map_of)
  ultimately show ?thesis by (simp add: finite_vimageI)
qed

termination save_path_loop
proof (relation "measure (\<lambda>(files, d, n, e, p, c).
          (if os_path_exists files p then 1 else 0)
          + card {k. c \<le> k \<and> os_path_exists files (candidate d n e k)})")
  show "wf (measure (\<lambda>(files, d, n, e, p, c).
          (if os_path_exists files p then 1 else 0)
          + card {k. c \<le> k \<and> os_path_exists files (candidate d n e k)}))" by simp
next
  fix files :: filesystem and directory file_name file_ext file_path :: string and counter :: nat
  assume ex: "os_path_exists files file_path"
  let ?T = "\<lambda>c. {k. c \<le> k \<and> os_path_exists files (candidate directory file_name file_ext k)}"
  have fin: "finite (?T counter)" using finite_taken[of files directory file_name file_ext]
    by (rule rev_finite_subset) auto
  have "(if os_path_exists files (candidate directory file_name file_ext counter) then 1 else 0)
          + card (?T (counter + 1)) \<le> card (?T counter)"
  proof (cases "os_path_exists files (candidate directory file_name file_ext counter)")
    case True
    have "?T counter = insert counter (?T (counter + 1))" using True by (auto simp: le_Suc_eq) 
    moreover have "counter \<notin> ?T (counter + 1)" by simp
    moreover have "finite (?T (counter + 1))" using fin by (rule rev_finite_subset) auto
    ultimately show ?thesis using True by simp
  next
    case False
    have "?T (counter + 1) \<subseteq> ?T counter" by auto
    with fin have "card (?T (counter + 1)) \<le> card (?T counter)" by (rule card_mono)
    with False show ?thesis by simp
  qed
  with ex show "((files, directory, file_name, file_ext,
           candidate directory file_name file_ext counter, counter + 1),
          files, directory, file_name, file_ext, file_path, counter)
         \<in> measure (\<lambda>(files, d, n, e, p, c).
          (if os_path_exists files p then 1 else 0)
          + card {k. c \<le> k \<and> os_path_exists files (candidate d n e k)})"
    unfolding in_measure by simp
qed

declare save_path_loop.simps [simp del]

lemma save_path_loop_free: "\<not> os_path_exists files (fst (save_path_loop files d n e p c))"
proof (induction files d n e p c rule: save_path_loop.induct)
  case (1 files directory file_name file_ext file_path counter)
  show ?case
  proof (cases "os_path_exists files file_path")
    case True
    then show ?thesis using "1.IH" by (subst save_path_loop.simps) simp
  next
    case False
    then show ?thesis by (subst save_path_loop.simps) simp
  qed
qed

section \<open>What a call leaves unchanged\<close>

lemma same_object_refl: "same_object s s"
  by (simp add: same_object_def)

lemma same_object_trans: "same_object s s1 \<Longrightarrow> same_object s1 s2 \<Longrightarrow> same_object s s2"
  by (simp add: same_object_def)

lemma and_then_cases:
  assumes "and_then r0 g = (r, s')"
  obtains s0 where "r0 = (Returned, s0)" "g s0 = (r, s')"
        | e where "r0 = (Raised e, s')" "r = Raised e"
  using assms by (cases r0; cases "fst r0") (auto simp: and_then_def)

lemma os_makedirs_frame: "os_makedirs env p s = (r, s') \<Longrightarrow> same_object s s'"
  by (auto simp: os_makedirs_def same_object_def split: option.splits node.splits if_splits)

lemma shutil_copy_frame: "shutil_copy env src dst s = (r, s') \<Longrightarrow> same_object s s'"
  by (auto simp: shutil_copy_def same_object_def Let_def split: option.splits node.splits if_splits)

lemma os_utime_frame: "os_utime env p ts s = (r, s') \<Longrightarrow> same_object s s'"
  by (auto simp: os_utime_def same_object_def split: option.splits if_splits)

lemma update_file_timestamps_frame: "update_file_timestamps env h p s = (r, s') \<Longrightarrow> same_object s s'"
  unfolding update_file_timestamps_def Let_def
  by (drule os_utime_frame) (simp add: same_object_def)

lemma save_frame: "save env h p s = (r, s') \<Longrightarrow> same_object s s'"
proof -
  assume a: "save env h p s = (r, s')"
  show ?thesis
  proof (cases "io_fails env (fs s) (ExifDump (exif_dict h))")
    case True
    with a show ?thesis by (simp add: save_def same_object_refl)
  next
    case False
    with a have "and_then (os_makedirs env (os_path_dirname p) s) (\<lambda>s1.
        if io_fails env (fs s1) (ImageSave p (exif_dict h)) then (Raised OSError, s1)
        else update_file_timestamps env h p
               (s1\<lparr>fs := (p, File (Picture ((img h)\<lparr>img_exif := Some (exif_dict h)\<rparr>)) None) # fs s1,
                   trace := trace s1 @ [ImageSave p (exif_dict h)]\<rparr>)) = (r, s')"
      by (simp add: save_def)
    then show ?thesis
    proof (cases rule: and_then_cases)
      case (1 s0)
      from 1(1) have f1: "same_object s s0" by (rule os_makedirs_frame)
      show ?thesis
      proof (cases "io_fails env (fs s0) (ImageSave p (exif_dict h))")
        case True
        with 1(2) f1 show ?thesis by simp
      next
        case False
        with 1(2) have "same_object (s0\<lparr>fs := (p, File (Picture ((img h)\<lparr>img_exif := Some (exif_dict h)\<rparr>)) None) # fs s0,
                   trace := trace s0 @ [ImageSave p (exif_dict h)]\<rparr>) s'"
          by (auto dest: update_file_timestamps_frame)
        with f1 show ?thesis by (simp add: same_object_def)
      qed
    next
      case (2 e)
      then show ?thesis by (auto dest: os_makedirs_frame)
    qed
  qed
qed

lemma same_object_after_write: "same_object s s' \<Longrightarrow> after_write md s s'"
  by (simp add: same_object_def after_write_def)

lemma add_processed_after_write: "same_object s s' \<Longrightarrow> after_write md s (add_processed md s')"
  by (simp add: same_object_def after_write_def add_processed_def)

lemma after_write_same: "same_object s s1 \<Longrightarrow> after_write md s1 s2 \<Longrightarrow> after_write md s s2"
  by (simp add: same_object_def after_write_def)

lemma copy_steps_frame:
  assumes "and_then (os_makedirs env dir s) (\<lambda>s1.
             and_then (shutil_copy env src path s1) (\<lambda>s2.
             and_then (os_utime env path ts s2) (\<lambda>s3.
             (Returned, add_processed md s3)))) = (r, s')"
  shows "after_write md s s'"
  using assms
proof (cases rule: and_then_cases)
  case (1 s1)
  from 1(1) have f1: "same_object s s1" by (rule os_makedirs_frame)
  from 1(2) show ?thesis
  proof (cases rule: and_then_cases)
    case (1 s2)
    from 1(1) have f2: "same_object s1 s2" by (rule shutil_copy_frame)
    from 1(2) show ?thesis
    proof (cases rule: and_then_cases)
      case (1 s3)
      from 1(1) have f3: "same_object s2 s3" by (rule os_utime_frame)
      from f1 f2 f3 have "same_object s s3" by (blast intro: same_object_trans)
      with 1(2) show ?thesis by (auto intro: add_processed_after_write)
    next
      case (2 e)
      from 2(1) have "same_object s2 s'" by (rule os_utime_frame)
      with f1 f2 show ?thesis by (blast intro: same_object_trans same_object_after_write)
    qed
  next
    case (2 e)
    from 2(1) have "same_object s1 s'" by (rule shutil_copy_frame)
    with f1 show ?thesis by (blast intro: same_object_trans same_object_after_write)
  qed
next
  case (2 e)
  from 2(1) have "same_object s s'" by (rule os_makedirs_frame)
  then show ?thesis by (rule same_object_after_write)
qed

lemma copy_non_image_frame:
  assumes "copy_non_image env s = (r, s')" and md: "metadata s = Some md"
  shows "r = Returned \<and> after_write md s s'"
proof (cases "is_dry_run s")
  case True
  with assms show ?thesis by (simp add: copy_non_image_def same_object_refl same_object_after_write)
next
  case dry: False
  show ?thesis
  proof (cases "generate_filename env s")
    case (Inl e)
    with assms dry show ?thesis
      by (simp add: copy_non_image_def same_object_refl same_object_after_write)
  next
    case (Inr base_file_name)
    show ?thesis
    proof (cases "generate_save_path (fs s) (save_directory md) base_file_name")
      case None
      with assms dry Inr show ?thesis
        by (simp add: copy_non_image_def same_object_refl same_object_after_write)
    next
      case (Some path)
      obtain r0 s0 where body: "and_then (os_makedirs env (os_path_dirname path) s) (\<lambda>s1.
             and_then (shutil_copy env (uri_path md) path s1) (\<lambda>s2.
             and_then (os_utime env path (timestamp md) s2) (\<lambda>s3.
             (Returned, add_processed md s3)))) = (r0, s0)" by (cases "and_then (os_makedirs env (os_path_dirname path) s) (\<lambda>s1.
             and_then (shutil_copy env (uri_path md) path s1) (\<lambda>s2.
             and_then (os_utime env path (timestamp md) s2) (\<lambda>s3.
             (Returned, add_processed md s3))))") 
      from body have "after_write md s s0" by (rule copy_steps_frame)
      moreover from assms dry Inr Some body have "r = Returned \<and> s' = s0"
        by (cases r0) (simp_all add: copy_non_image_def)
      ultimately show ?thesis by simp
    qed
  qed
qed

lemma image_steps_frame:
  assumes "image_steps env md path s = (r, s')"
  shows "(case r of Returned \<Rightarrow> after_write md s s' | Raised e \<Rightarrow> same_object s s')"
proof (cases "ExifImageHandler env (fs s) (uri_path md)")
  case (Inl e)
  with assms show ?thesis by (auto simp: image_steps_def same_object_refl)
next
  case (Inr h0)
  show ?thesis
  proof (cases "set_creation_timestamp h0 (timestamp md)")
    case (Inl e)
    with assms Inr show ?thesis by (auto simp: image_steps_def same_object_refl)
  next
    case h1: (Inr h1)
    with assms Inr have "and_then (save env (set_description h1 (description md)) path s) (\<lambda>s1.
                 (Returned, add_processed md s1)) = (r, s')" by (simp add: image_steps_def)
    then show ?thesis
    proof (cases rule: and_then_cases)
      case (1 s0)
      from 1(1) have "same_object s s0" by (rule save_frame)
      with 1(2) show ?thesis by (auto intro: add_processed_after_write)
    next
      case (2 e)
      from 2(1) have "same_object s s'" by (rule save_frame)
      with 2(2) show ?thesis by simp
    qed
  qed
qed

lemma copy_image_frame:
  assumes "copy_image env s = (r, s')" and md: "metadata s = Some md"
  shows "after_write md s s'"
proof (cases "is_dry_run s")
  case True
  with assms show ?thesis by (simp add: copy_image_def same_object_refl same_object_after_write)
next
  case dry: False
  show ?thesis
  proof (cases "generate_filename env s")
    case (Inl e)
    with assms dry show ?thesis
      by (simp add: copy_image_def same_object_refl same_object_after_write)
  next
    case (Inr base_file_name)
    show ?thesis
    proof (cases "generate_save_path (fs s) (save_directory md) base_file_name")
      case None
      with assms dry Inr show ?thesis
        by (simp add: copy_image_def same_object_refl same_object_after_write)
    next
      case (Some path)
      obtain r0 s0 where body: "image_steps env md path s = (r0, s0)"
        by (cases "image_steps env md path s")
      note fr = image_steps_frame[OF body]
      show ?thesis
      proof (cases r0)
        case Returned
        with assms dry Inr Some body have "s' = s0" by (simp add: copy_image_def)
        with fr Returned show ?thesis by simp
      next
        case (Raised e)
        with fr have so: "same_object s s0" by simp
        then have m0: "metadata s0 = Some md" using md by (simp add: same_object_def)
        from assms dry Inr Some body Raised have "copy_non_image env s0 = (r, s')"
          by (simp add: copy_image_def)
        from copy_non_image_frame[OF this m0] have "after_write md s0 s'" by simp
        with so show ?thesis by (rule after_write_same)
      qed
    qed
  qed
qed

lemma make_metadata_paths:
  "make_metadata base now d uri directory = Inr md \<Longrightarrow>
     uri_path md = os_path_join base uri \<and> save_directory md = directory"
  by (auto simp: make_metadata_def Let_def split: sum.splits)

subsection \<open>The paths through \<open>process_media_item\<close>\<close>


lemma process_non_object:
  "\<forall>d. data \<noteq> JObj d \<Longrightarrow> process_media_item env data directory s = (Raised AttributeError, s)"
  by (cases data) (simp_all add: process_media_item_def)

lemma process_non_string_uri:
  "\<forall>u. dict_get d ''uri'' (JStr []) \<noteq> JStr u \<Longrightarrow>
     process_media_item env (JObj d) directory s = (Raised AttributeError, s)"
  by (cases "dict_get d ''uri'' (JStr [])") (simp_all add: process_media_item_def)

lemma process_foreign_uri:
  "dict_get d ''uri'' (JStr []) = JStr uri \<Longrightarrow> \<not> startswith uri ''your_facebook_activity'' \<Longrightarrow>
     process_media_item env (JObj d) directory s = (Returned, s)"
  by (simp add: process_media_item_def)

lemma process_local_uri:
  "dict_get d ''uri'' (JStr []) = JStr uri \<Longrightarrow> startswith uri ''your_facebook_activity'' \<Longrightarrow>
     process_media_item env (JObj d) directory s =
       (case make_metadata (base_path s) (time_time env (ticks s)) d uri directory of
          Inl e \<Rightarrow> (Raised e, s\<lparr>ticks := Suc (ticks s)\<rparr>)
        | Inr md \<Rightarrow>
            if (uri_path md, save_directory md) \<in> processed_items s
            then (Returned, s\<lparr>ticks := Suc (ticks s), metadata := Some md\<rparr>)
            else if lower (snd (os_path_splitext (uri_path md))) \<in> set image_extensions
            then copy_image env (s\<lparr>ticks := Suc (ticks s), metadata := Some md\<rparr>)
            else copy_non_image env (s\<lparr>ticks := Suc (ticks s), metadata := Some md\<rparr>))"
  by (simp add: process_media_item_def Let_def split: sum.splits)

lemma process_media_item_cases:
  assumes "process_media_item env data directory s = (r, s')"
  obtains (unchanged) "s' = s"
    | (raised) e where "r = Raised e" "s' = s\<lparr>ticks := Suc (ticks s)\<rparr>"
    | (known) d uri md where "data = JObj d" "dict_get d ''uri'' (JStr []) = JStr uri"
        "make_metadata (base_path s) (time_time env (ticks s)) d uri directory = Inr md"
        "(uri_path md, save_directory md) \<in> processed_items s"
        "r = Returned" "s' = s\<lparr>ticks := Suc (ticks s), metadata := Some md\<rparr>"
    | (image) d uri md where "data = JObj d" "dict_get d ''uri'' (JStr []) = JStr uri"
        "make_metadata (base_path s) (time_time env (ticks s)) d uri directory = Inr md"
        "(uri_path md, save_directory md) \<notin> processed_items s"
        "copy_image env (s\<lparr>ticks := Suc (ticks s), metadata := Some md\<rparr>) = (r, s')"
    | (other) d uri md where "data = JObj d" "dict_get d ''uri'' (JStr []) = JStr uri"
        "make_metadata (base_path s) (time_time env (ticks s)) d uri directory = Inr md"
        "(uri_path md, save_directory md) \<notin> processed_items s"
        "copy_non_image env (s\<lparr>ticks := Suc (ticks s), metadata := Some md\<rparr>) = (r, s')"
proof (cases "\<exists>d. data = JObj d")
  case False
  with assms have "s' = s" by (simp add: process_non_object)
  then show ?thesis by (rule unchanged)
next
  case True
  then obtain d where d: "data = JObj d" by blast
  show ?thesis
  proof (cases "\<exists>u. dict_get d ''uri'' (JStr []) = JStr u")
    case False
    with assms d have "s' = s" by (simp add: process_non_string_uri)
    then show ?thesis by (rule unchanged)
  next
    case True
    then obtain uri where uri: "dict_get d ''uri'' (JStr []) = JStr uri" by blast
    show ?thesis
    proof (cases "startswith uri ''your_facebook_activity''")
      case False
      with assms d uri have "s' = s" by (simp add: process_foreign_uri)
      then show ?thesis by (rule unchanged)
    next
      case sw: True
      note eq = process_local_uri[OF uri sw, of env directory s]
      show ?thesis
      proof (cases "make_metadata (base_path s) (time_time env (ticks s)) d uri directory")
        case (Inl e)
        with assms d eq have "r = Raised e" "s' = s\<lparr>ticks := Suc (ticks s)\<rparr>" by simp_all
        then show ?thesis by (rule raised)
      next
        case (Inr md)
        show ?thesis
        proof (cases "(uri_path md, save_directory md) \<in> processed_items s")
          case True
          with assms d eq Inr
          have "r = Returned" "s' = s\<lparr>ticks := Suc (ticks s), metadata := Some md\<rparr>" by simp_all
          with d uri Inr True show ?thesis by (rule known)
        next
          case nk: False
          show ?thesis
          proof (cases "lower (snd (os_path_splitext (uri_path md))) \<in> set image_extensions")
            case True
            with assms d eq Inr nk
            have "copy_image env (s\<lparr>ticks := Suc (ticks s), metadata := Some md\<rparr>) = (r, s')"
              by simp
            with d uri Inr nk show ?thesis by (rule image)
          next
            case False
            with assms d eq Inr nk
            have "copy_non_image env (s\<lparr>ticks := Suc (ticks s), metadata := Some md\<rparr>) = (r, s')"
              by simp
            with d uri Inr nk show ?thesis by (rule other)
          qed
        qed
      qed
    qed
  qed
qed

section \<open>C9: the save path is never None and is always free\<close>

text \<open>
  Claim C9. For every directory and base filename, \<open>_generate_save_path\<close> returns a path
  (never \<open>None\<close>) that does not exist in the file system it probed. The loop always ends,
  because the file system is finite. So the guard \<open>if save_path is None: return\<close> of both
  writer branches is never taken.
\<close>

theorem C9_generate_save_path_free:
  "\<exists>p. generate_save_path files directory base_file_name = Some p \<and> \<not> os_path_exists files p"
  by (simp add: generate_save_path_def Let_def save_path_loop_free)

text \<open>The same on a directory in which the base name is already taken.\<close>

theorem C9_generate_save_path_free_witness:
  "\<exists>p. generate_save_path
          ((''/out/videos/2023-11-14_14.13.20.mp4'', File (Blob ''video-b'') None) # sample_files)
          ''/out/videos'' ''2023-11-14_14.13.20.mp4'' = Some p
       \<and> \<not> os_path_exists
          ((''/out/videos/2023-11-14_14.13.20.mp4'', File (Blob ''video-b'') None) # sample_files) p"
  by (rule C9_generate_save_path_free)

section \<open>C10: a record without a uri is skipped\<close>

text \<open>
  Claim C10. A raw record that has no \<open>uri\<close> key is treated as having the empty URI, which
  does not start with the export-root marker: \<open>process_media_item\<close> returns without raising
  and leaves the whole state, the Processed-Set included, as it was.
\<close>

theorem C10_missing_uri_skipped:
  "map_of d ''uri'' = None \<Longrightarrow> process_media_item env (JObj d) directory s = (Returned, s)"
  by (simp add: process_media_item_def dict_get_def startswith_def)

theorem C10_missing_uri_skipped_witness:
  "map_of [(''description'', JStr ''no uri''), (''creation_timestamp'', JInt 1700000000)] ''uri'' = None
   \<and> process_media_item sample_env
        (JObj [(''description'', JStr ''no uri''), (''creation_timestamp'', JInt 1700000000)])
        ''/out/posts'' sample_state = (Returned, sample_state)
   \<and> processed_items sample_state = {}"
  using C10_missing_uri_skipped
    [of "[(''description'', JStr ''no uri''), (''creation_timestamp'', JInt 1700000000)]"
        sample_env "''/out/posts''" sample_state]
  by (simp add: sample_state_def MediaProcessor_def)

end
